theory Spec2Isabelle
  imports Main
begin

section \<open>JavaScript values and operators used by the sources\<close>

text \<open>
  The payment response handed to \<open>verifyPayment\<close> is typed \<open>any\<close>. Its fields are
  modelled as JavaScript values; a property that is missing reads as \<open>JSUndefined\<close>.
\<close>

datatype jsval =
    JSUndefined
  | JSNull
  | JSBool bool
  | JSNum int
  | JSNaN
  | JSStr string
  | JSObj

fun truthy :: "jsval \<Rightarrow> bool" where
  "truthy JSUndefined = False"
| "truthy JSNull = False"
| "truthy (JSBool b) = b"
| "truthy (JSNum n) = (n \<noteq> 0)"
| "truthy JSNaN = False"
| "truthy (JSStr s) = (s \<noteq> [])"
| "truthy JSObj = True"

text \<open>\<open>a && b\<close>: the left operand when it is falsy, the right operand otherwise.\<close>

definition js_and :: "jsval \<Rightarrow> jsval \<Rightarrow> jsval" where
  "js_and a b = (if truthy a then b else a)"

text \<open>
  \<open>x || d\<close> for a document field \<open>x\<close> that is a number or missing: \<open>undefined\<close> and
  \<open>0\<close> are both falsy.
\<close>

definition js_or_default :: "int option \<Rightarrow> int \<Rightarrow> int" where
  "js_or_default x d = (case x of None \<Rightarrow> d | Some v \<Rightarrow> if v = 0 then d else v)"

text \<open>\<open>x !== undefined ? x : d\<close> for the same kind of field.\<close>

definition js_defined_or :: "int option \<Rightarrow> int \<Rightarrow> int" where
  "js_defined_or x d = (case x of None \<Rightarrow> d | Some v \<Rightarrow> v)"

text \<open>\<open>a % b\<close> on integers: the remainder of the division truncated towards zero.\<close>

definition js_rem :: "int \<Rightarrow> int \<Rightarrow> int" where
  "js_rem a b = sgn a * (\<bar>a\<bar> mod \<bar>b\<bar>)"

text \<open>\<open>Number.prototype.toString()\<close> on an integer, and \<open>String.prototype.padStart\<close>.\<close>

definition digit_char :: "nat \<Rightarrow> char" where
  "digit_char d = ''0123456789'' ! d"

fun nat_to_string :: "nat \<Rightarrow> string" where
  "nat_to_string n =
     (if n < 10 then [digit_char n] else nat_to_string (n div 10) @ [digit_char (n mod 10)])"

declare nat_to_string.simps [simp del]

definition toString :: "int \<Rightarrow> string" where
  "toString i = (if i < 0 then CHR ''-'' # nat_to_string (nat (- i)) else nat_to_string (nat i))"

definition padStart :: "nat \<Rightarrow> char \<Rightarrow> string \<Rightarrow> string" where
  "padStart n c s = replicate (n - length s) c @ s"

section \<open>Payment verification (lib/razorpay.ts)\<close>

record razorpay_response =
  razorpay_payment_id :: jsval
  razorpay_order_id :: jsval
  razorpay_signature :: jsval

definition verifyPayment :: "razorpay_response \<Rightarrow> jsval" where
  "verifyPayment response = js_and (razorpay_payment_id response) (razorpay_order_id response)"

section \<open>The usage ledger (hook useUserUsage)\<close>

text \<open>
  A document of the Firestore collection \<open>user\<close>, restricted to the fields the ledger and
  the plan upgrade read or write. A field that is absent from the document is \<open>None\<close>.
  \<open>serverTimestamp()\<close> is a sentinel that the store replaces; it is kept as a sentinel.
\<close>

datatype timestamp = ServerTimestamp

record user_doc =
  doc_total_conversation_seconds :: "int option"
  doc_remaining :: "int option"
  doc_plan :: "string option"
  doc_last_updated :: "timestamp option"

type_synonym store = "string \<rightharpoonup> user_doc"

text \<open>The outcome of one asynchronous store call: it resolves or it rejects.\<close>

datatype net = NetOk | NetError

text \<open>\<open>user?.uid\<close>: the guard \<open>!user?.uid\<close> also holds for an empty uid.\<close>

definition uid_of :: "string option \<Rightarrow> string option" where
  "uid_of user = (case user of None \<Rightarrow> None | Some uid \<Rightarrow> if uid = [] then None else Some uid)"

record UserUsage =
  total_conversation_seconds :: int
  remaining_seconds :: int
  remaining_minutes :: int
  remaining_hours :: int

definition FREE_LIMIT_SECONDS :: int where
  "FREE_LIMIT_SECONDS = 20 * 60"

definition canStartCall :: "UserUsage option \<Rightarrow> bool" where
  "canStartCall usage = (case usage of None \<Rightarrow> False | Some u \<Rightarrow> remaining_seconds u > 0)"

definition formatRemainingTime :: "UserUsage option \<Rightarrow> string" where
  "formatRemainingTime usage =
     (case usage of
        None \<Rightarrow> ''00:00''
      | Some u \<Rightarrow>
          (let minutes = remaining_seconds u div 60;
               seconds = js_rem (remaining_seconds u) 60
           in padStart 2 CHR ''0'' (toString minutes) @ '':'' @ padStart 2 CHR ''0'' (toString seconds)))"

definition formatRemainingTimeDetailed :: "UserUsage option \<Rightarrow> string" where
  "formatRemainingTimeDetailed usage =
     (case usage of
        None \<Rightarrow> ''00:00:00''
      | Some u \<Rightarrow>
          (let hours = remaining_seconds u div 3600;
               minutes = js_rem (remaining_seconds u) 3600 div 60;
               seconds = js_rem (remaining_seconds u) 60
           in padStart 2 CHR ''0'' (toString hours) @ '':'' @ padStart 2 CHR ''0'' (toString minutes)
              @ '':'' @ padStart 2 CHR ''0'' (toString seconds)))"

text \<open>The two pieces of state of the hook: the cached record and the loading flag.\<close>

record ledger =
  usage :: "UserUsage option"
  isLoading :: bool

text \<open>What \<open>loadUserUsage\<close> caches for a snapshot that was read successfully.\<close>

definition loaded_usage :: "user_doc option \<Rightarrow> UserUsage" where
  "loaded_usage snap =
     (case snap of
        Some userData \<Rightarrow>
          (let totalSeconds = js_or_default (doc_total_conversation_seconds userData) 0;
               remainingSeconds = js_defined_or (doc_remaining userData) FREE_LIMIT_SECONDS;
               remainingMinutes = remainingSeconds div 60;
               remainingHours = remainingSeconds div 3600
           in \<lparr>total_conversation_seconds = totalSeconds, remaining_seconds = remainingSeconds,
               remaining_minutes = remainingMinutes, remaining_hours = remainingHours\<rparr>)
      | None \<Rightarrow>
          \<lparr>total_conversation_seconds = 0, remaining_seconds = FREE_LIMIT_SECONDS,
           remaining_minutes = 20, remaining_hours = 0\<rparr>)"

text \<open>
  \<open>loadUserUsage\<close> in two steps, so that the state in which the read is in flight is a
  state of the model: the flag is raised, then the read settles. A rejected read is caught
  and logged; only the flag is lowered.
\<close>

definition loadUserUsage_begin :: "ledger \<Rightarrow> ledger" where
  "loadUserUsage_begin l = l\<lparr>isLoading := True\<rparr>"

definition loadUserUsage_end :: "net \<Rightarrow> user_doc option \<Rightarrow> ledger \<Rightarrow> ledger" where
  "loadUserUsage_end r snap l =
     (case r of
        NetOk \<Rightarrow> l\<lparr>usage := Some (loaded_usage snap), isLoading := False\<rparr>
      | NetError \<Rightarrow> l\<lparr>isLoading := False\<rparr>)"

definition loadUserUsage :: "string option \<Rightarrow> net \<Rightarrow> store \<Rightarrow> ledger \<Rightarrow> ledger" where
  "loadUserUsage user r db l =
     (case uid_of user of
        None \<Rightarrow> l
      | Some uid \<Rightarrow> loadUserUsage_end r (db uid) (loadUserUsage_begin l))"

text \<open>
  The numbers \<open>updateUserUsage\<close> computes from the snapshot it has read, and the two
  writes: \<open>updateDoc\<close> merges them into the document, \<open>setDoc\<close> creates the document.
\<close>

record usage_fields =
  newUsage :: int
  newRemaining :: int

definition debit_fields :: "user_doc option \<Rightarrow> int \<Rightarrow> usage_fields" where
  "debit_fields snap callDurationSeconds =
     (case snap of
        Some userData \<Rightarrow>
          (let currentUsage = js_or_default (doc_total_conversation_seconds userData) 0;
               currentRemaining = js_or_default (doc_remaining userData) FREE_LIMIT_SECONDS
           in \<lparr>newUsage = currentUsage + callDurationSeconds,
               newRemaining = max 0 (currentRemaining - callDurationSeconds)\<rparr>)
      | None \<Rightarrow>
          \<lparr>newUsage = callDurationSeconds,
           newRemaining = max 0 (FREE_LIMIT_SECONDS - callDurationSeconds)\<rparr>)"

definition updateDoc_usage :: "usage_fields \<Rightarrow> user_doc \<Rightarrow> user_doc" where
  "updateDoc_usage f d =
     d\<lparr>doc_total_conversation_seconds := Some (newUsage f), doc_remaining := Some (newRemaining f),
       doc_last_updated := Some ServerTimestamp\<rparr>"

definition setDoc_usage :: "usage_fields \<Rightarrow> user_doc" where
  "setDoc_usage f =
     \<lparr>doc_total_conversation_seconds = Some (newUsage f), doc_remaining = Some (newRemaining f),
      doc_plan = None, doc_last_updated = Some ServerTimestamp\<rparr>"

definition debit_write :: "user_doc option \<Rightarrow> int \<Rightarrow> user_doc" where
  "debit_write snap callDurationSeconds =
     (case snap of
        Some userData \<Rightarrow> updateDoc_usage (debit_fields snap callDurationSeconds) userData
      | None \<Rightarrow> setDoc_usage (debit_fields snap callDurationSeconds))"

text \<open>
  The outcomes of the three store calls of one \<open>updateUserUsage\<close>: the read, the write and
  the read of the reload that follows.
\<close>

record net_env =
  getDoc_result :: net
  write_result :: net
  reload_result :: net

definition all_ok :: net_env where
  "all_ok = \<lparr>getDoc_result = NetOk, write_result = NetOk, reload_result = NetOk\<rparr>"

text \<open>
  One \<open>updateUserUsage\<close> call run to completion with no other writer in between. A
  rejected read or write is caught and logged: nothing is written and nothing reloaded.
\<close>

definition updateUserUsage ::
  "string option \<Rightarrow> net_env \<Rightarrow> int \<Rightarrow> store \<times> ledger \<Rightarrow> store \<times> ledger" where
  "updateUserUsage user env callDurationSeconds s =
     (case uid_of user of
        None \<Rightarrow> s
      | Some uid \<Rightarrow>
          (if getDoc_result env = NetError then s
           else if write_result env = NetError then s
           else
             (let db' = (fst s)(uid \<mapsto> debit_write (fst s uid) callDurationSeconds)
              in (db', loadUserUsage user (reload_result env) db' (snd s)))))"

text \<open>A sequence of debits, one after the other, every store call resolving.\<close>

fun apply_debits :: "string option \<Rightarrow> int list \<Rightarrow> store \<times> ledger \<Rightarrow> store \<times> ledger" where
  "apply_debits user [] s = s"
| "apply_debits user (d # ds) s = apply_debits user ds (updateUserUsage user all_ok d s)"

text \<open>The balance and the total a store holds for a user, when the document has them.\<close>

definition stored_remaining :: "store \<Rightarrow> string \<Rightarrow> int option" where
  "stored_remaining db uid = (case db uid of None \<Rightarrow> None | Some d \<Rightarrow> doc_remaining d)"

definition stored_total :: "store \<Rightarrow> string \<Rightarrow> int option" where
  "stored_total db uid =
     (case db uid of None \<Rightarrow> None | Some d \<Rightarrow> doc_total_conversation_seconds d)"

definition no_ledger :: ledger where
  "no_ledger = \<lparr>usage = None, isLoading = False\<rparr>"

section \<open>Plan upgrade (hook useAuth, updateSubscription)\<close>

record SubscriptionPlan =
  plan_id :: string
  calls :: int
  minutes :: int
  price :: int
  description :: string

record subscription_result =
  success :: bool
  error :: "string option"

text \<open>The \<open>code\<close> of a rejected \<open>updateDoc\<close>, as the handler's \<open>switch\<close> tells them apart.\<close>

datatype store_error = PermissionDenied | NotFound | NetworkRequestFailed | OtherCode | NoCode

definition subscription_error_message :: "store_error \<Rightarrow> string" where
  "subscription_error_message e =
     (case e of
        PermissionDenied \<Rightarrow> ''Permission denied. Please log in again.''
      | NotFound \<Rightarrow> ''User document not found. Please contact support.''
      | NetworkRequestFailed \<Rightarrow> ''Network error. Please check your connection and try again.''
      | OtherCode \<Rightarrow> ''Failed to update subscription. Please try again.''
      | NoCode \<Rightarrow> ''Failed to update subscription. Please try again.'')"

text \<open>The \<open>switch (plan.price)\<close>: plan name and granted seconds, or the default branch.\<close>

definition plan_for_price :: "int \<Rightarrow> (string \<times> int) option" where
  "plan_for_price p =
     (if p = 249 then Some (''Basic'', 40 * 60)
      else if p = 1150 then Some (''Pro'', 200 * 60)
      else if p = 2250 then Some (''Premium'', 400 * 60)
      else None)"

text \<open>
  \<open>updateDoc\<close> rejects with \<open>not-found\<close> when the document does not exist, and with the
  given error when the call itself fails; otherwise it merges the three fields.
\<close>

definition updateSubscription ::
  "string option \<Rightarrow> store_error option \<Rightarrow> SubscriptionPlan \<Rightarrow> store \<Rightarrow> subscription_result \<times> store" where
  "updateSubscription user fails plan db =
     (case uid_of user of
        None \<Rightarrow> (\<lparr>success = False, error = Some ''User not authenticated''\<rparr>, db)
      | Some uid \<Rightarrow>
          (case plan_for_price (price plan) of
             None \<Rightarrow> (\<lparr>success = False, error = Some ''Invalid plan selected''\<rparr>, db)
           | Some (planName, remainingSeconds) \<Rightarrow>
               (case fails of
                  Some e \<Rightarrow> (\<lparr>success = False, error = Some (subscription_error_message e)\<rparr>, db)
                | None \<Rightarrow>
                    (case db uid of
                       None \<Rightarrow>
                         (\<lparr>success = False, error = Some (subscription_error_message NotFound)\<rparr>, db)
                     | Some d \<Rightarrow>
                         (\<lparr>success = True, error = None\<rparr>,
                          db(uid \<mapsto> d\<lparr>doc_plan := Some planName,
                                       doc_remaining := Some remainingSeconds,
                                       doc_total_conversation_seconds := Some 0\<rparr>))))))"

text \<open>The document \<open>signup\<close> creates, restricted to the modelled fields.\<close>

definition signup_doc :: user_doc where
  "signup_doc =
     \<lparr>doc_total_conversation_seconds = Some 0, doc_remaining = Some 1200,
      doc_plan = Some ''Free Trial'', doc_last_updated = None\<rparr>"

section \<open>The call view (component VoiceInterface)\<close>

text \<open>
  The state of the mounted component together with what it acts on: the store, the signed-in
  user and the ledger hook. Calls of \<open>updateUserUsage\<close> made by the timer are asynchronous
  and not awaited: they are queued in \<open>pending_debits\<close> and settle in a later step.
  \<open>autoStartInitiated\<close> is \<open>autoStartInitiatedRef\<close>, and \<open>autoStartTimer\<close> says that the
  two-second timeout of the auto-start is pending. Toasts and the calls of \<open>startSession\<close>,
  of \<open>endCall\<close> and of \<open>returnToFlutterFlow\<close> are logged.
\<close>

record world =
  db :: store
  user :: "string option"
  hook :: ledger
  isConnected :: bool
  isTimerRunning :: bool
  conversationTime :: int
  permissionGranted :: bool
  isWebViewDetected :: bool
  showSubscriptionModal :: bool
  autoStartInitiated :: bool
  autoStartTimer :: bool
  pending_debits :: "int list"
  toasts :: "(string \<times> string) list"
  startSession_calls :: nat
  endCall_calls :: nat
  handoffs :: nat

text \<open>One firing of the timer's interval; the interval exists while \<open>isTimerRunning\<close>.\<close>

definition timer_tick :: "world \<Rightarrow> world" where
  "timer_tick w =
     (if isTimerRunning w then
        (let newTime = conversationTime w + 1
         in if js_rem newTime 10 = 0
            then w\<lparr>conversationTime := newTime, pending_debits := pending_debits w @ [10]\<rparr>
            else w\<lparr>conversationTime := newTime\<rparr>)
      else w)"

text \<open>The oldest queued \<open>updateUserUsage\<close> call settles, with the given store outcomes.\<close>

definition debit_settles :: "net_env \<Rightarrow> world \<Rightarrow> world" where
  "debit_settles env w =
     (case pending_debits w of
        [] \<Rightarrow> w
      | d # ds \<Rightarrow>
          (let s = updateUserUsage (user w) env d (db w, hook w)
           in w\<lparr>db := fst s, hook := snd s, pending_debits := ds\<rparr>))"

text \<open>
  \<open>returnToFlutterFlow\<close> sends one hand-off to the host. The duration and the balance it
  carries are read from the closure of the callback the voice session invokes; which
  render's closure that is lies with the session library, so the hand-off is counted and
  its payload is left out.
\<close>

definition returnToFlutterFlow :: "world \<Rightarrow> world" where
  "returnToFlutterFlow w = w\<lparr>handoffs := Suc (handoffs w)\<rparr>"

definition onConnect :: "world \<Rightarrow> world" where
  "onConnect w =
     w\<lparr>isConnected := True, isTimerRunning := True, conversationTime := 0,
       toasts := toasts w @ [(''Connected'', ''Voice call started successfully'')]\<rparr>"

text \<open>
  The part of \<open>endCall\<close> that runs before the session answers: the timer is stopped and
  \<open>endSession\<close> is called.
\<close>

definition endCall_requested :: "world \<Rightarrow> world" where
  "endCall_requested w = w\<lparr>isTimerRunning := False, endCall_calls := Suc (endCall_calls w)\<rparr>"

text \<open>
  \<open>onDisconnect\<close>, followed by the cleanup of the effect that depends on \<open>isConnected\<close>:
  when the flag drops from true to false the cleanup, which still sees the old value, calls
  \<open>endCall\<close>. The session has ended by then, so this \<open>endSession\<close> reports nothing further.
\<close>

definition onDisconnect :: "world \<Rightarrow> world" where
  "onDisconnect w =
     (let w1 = returnToFlutterFlow (w\<lparr>isConnected := False, isTimerRunning := False\<rparr>)
      in if isConnected w then endCall_requested w1 else w1)"

definition onError :: "world \<Rightarrow> world" where
  "onError w = returnToFlutterFlow (w\<lparr>isTimerRunning := False\<rparr>)"

text \<open>
  \<open>endCall\<close>: the timer is stopped and the session is asked to end; a session that is
  connected then reports the disconnect.
\<close>

definition endCall :: "world \<Rightarrow> world" where
  "endCall w =
     (let w1 = endCall_requested w
      in if isConnected w1 then onDisconnect w1 else w1)"

text \<open>
  The exhaustion check. The effect that runs when the cached balance changes and the
  interval that fires every second both test this condition on the cached record.
\<close>

definition exhausted :: "world \<Rightarrow> bool" where
  "exhausted w =
     (isConnected w \<and> (case usage (hook w) of None \<Rightarrow> False | Some u \<Rightarrow> remaining_seconds u \<le> 0))"

definition exhaustion_check :: "world \<Rightarrow> world" where
  "exhaustion_check w =
     (if exhausted w then
        endCall (w\<lparr>toasts := toasts w @
          [(''Time Limit Reached'',
            ''Your free minutes have been used up. Call ended automatically.'')]\<rparr>)
      else w)"

text \<open>
  \<open>startCall\<close>. \<open>mic\<close> is the outcome of asking for the microphone (\<open>None\<close> when
  \<open>getUserMedia\<close> is not there), \<open>session_ok\<close> whether \<open>startSession\<close> resolves; the
  connection itself is reported later through \<open>onConnect\<close>. \<open>begin_session\<close> is the
  \<open>try\<close> block that follows the two gates.
\<close>

definition begin_session :: "bool option \<Rightarrow> bool \<Rightarrow> world \<Rightarrow> world" where
  "begin_session mic session_ok w =
     (let w1 = (if \<not> permissionGranted w
                then (case mic of None \<Rightarrow> w | Some granted \<Rightarrow> w\<lparr>permissionGranted := granted\<rparr>)
                else w);
          w2 = w1\<lparr>startSession_calls := Suc (startSession_calls w1)\<rparr>
      in if session_ok then w2
         else w2\<lparr>toasts := toasts w2 @
                [(''Call Failed'',
                  if isWebViewDetected w2
                  then ''Voice connection failed in WebView. Please open in a regular browser.''
                  else ''Unable to connect to the voice agent'')]\<rparr>)"

definition startCall :: "bool option \<Rightarrow> bool \<Rightarrow> world \<Rightarrow> world" where
  "startCall mic session_ok w =
     (if isLoading (hook w) \<or> usage (hook w) = None then
        w\<lparr>toasts := toasts w @ [(''Please wait'', ''Checking your remaining time...'')]\<rparr>
      else if \<not> canStartCall (usage (hook w)) then
        w\<lparr>showSubscriptionModal := True\<rparr>
      else begin_session mic session_ok w)"

text \<open>
  The auto-start effect, which runs when the loading flag or the cached balance changes:
  once the usage is loaded with a positive balance it starts the call, at once or, in a
  WebView, from a timeout of two seconds. The delayed call is the \<open>startCall\<close> of the
  render that set the timeout, in which both gates pass.
\<close>

definition auto_start_effect :: "bool option \<Rightarrow> bool \<Rightarrow> world \<Rightarrow> world" where
  "auto_start_effect mic session_ok w =
     (if \<not> autoStartInitiated w \<and> \<not> isLoading (hook w) \<and> usage (hook w) \<noteq> None then
        (if canStartCall (usage (hook w)) then
           (let w1 = w\<lparr>autoStartInitiated := True\<rparr>
            in if isWebViewDetected w1 then w1\<lparr>autoStartTimer := True\<rparr>
               else startCall mic session_ok w1)
         else w)
      else w)"

definition auto_start_timeout :: "bool option \<Rightarrow> bool \<Rightarrow> world \<Rightarrow> world" where
  "auto_start_timeout mic session_ok w =
     (if autoStartTimer w then begin_session mic session_ok (w\<lparr>autoStartTimer := False\<rparr>)
      else w)"

text \<open>The events of a mounted call view, and a run of them.\<close>

datatype event =
    Tick
  | DebitSettles net_env
  | Check
  | AutoStart "bool option" bool
  | AutoStartTimeout "bool option" bool

fun step :: "event \<Rightarrow> world \<Rightarrow> world" where
  "step Tick w = timer_tick w"
| "step (DebitSettles env) w = debit_settles env w"
| "step Check w = exhaustion_check w"
| "step (AutoStart mic session_ok) w = auto_start_effect mic session_ok w"
| "step (AutoStartTimeout mic session_ok) w = auto_start_timeout mic session_ok w"

fun run :: "event list \<Rightarrow> world \<Rightarrow> world" where
  "run [] w = w"
| "run (e # es) w = run es (step e w)"

text \<open>
  One second of a call in which nothing is delayed: the timer fires, a debit it issued
  settles with every store call resolving, and the exhaustion check runs.
\<close>

definition second :: "event list" where
  "second = [Tick, DebitSettles all_ok, Check]"

fun seconds :: "nat \<Rightarrow> event list" where
  "seconds 0 = []"
| "seconds (Suc n) = second @ seconds n"

text \<open>A view mounted for a user whose stored balance is the given number of seconds.\<close>

definition mounted :: "string \<Rightarrow> int \<Rightarrow> world" where
  "mounted uid r =
     \<lparr>db = Map.empty(uid \<mapsto> signup_doc\<lparr>doc_remaining := Some r\<rparr>), user = Some uid,
      hook = no_ledger, isConnected = False, isTimerRunning = False, conversationTime = 0,
      permissionGranted = False, isWebViewDetected = False, showSubscriptionModal = False,
      autoStartInitiated = False, autoStartTimer = False, pending_debits = [],
      toasts = [], startSession_calls = 0, endCall_calls = 0, handoffs = 0\<rparr>"

text \<open>
  The first load of the usage settles, and the auto-start effect runs on what it cached.
\<close>

definition usage_loaded :: "net \<Rightarrow> world \<Rightarrow> world" where
  "usage_loaded r w =
     auto_start_effect (Some True) True
       (w\<lparr>hook := loadUserUsage (user w) r (db w) (hook w)\<rparr>)"

text \<open>The usage is loaded, the auto-start starts the call and the session connects.\<close>

definition call_started :: "string \<Rightarrow> int \<Rightarrow> world" where
  "call_started uid r = onConnect (usage_loaded NetOk (mounted uid r))"

section \<open>Reading a formatted time back\<close>

definition is_digit :: "char \<Rightarrow> bool" where
  "is_digit c = (48 \<le> (of_char c :: nat) \<and> (of_char c :: nat) \<le> 57)"

definition digit_value :: "char \<Rightarrow> nat" where
  "digit_value c = of_char c - 48"

definition digits_value :: "string \<Rightarrow> nat" where
  "digits_value s = foldl (\<lambda>acc c. 10 * acc + digit_value c) 0 s"

text \<open>The fields of a formatted time: the pieces between the colons.\<close>

fun split_colon :: "string \<Rightarrow> string list" where
  "split_colon [] = [[]]"
| "split_colon (c # cs) =
     (if c = CHR '':'' then [] # split_colon cs
      else (case split_colon cs of [] \<Rightarrow> [[c]] | f # fs \<Rightarrow> (c # f) # fs))"

definition two_digit :: "string \<Rightarrow> bool" where
  "two_digit f = (length f = 2 \<and> list_all is_digit f)"

section \<open>The scenario of a call started with 15 seconds left\<close>

text \<open>
  What holds of the call view before the twentieth tick, with \<open>k\<close> ticks still to go until
  the nineteenth: the call is connected, nothing has ended it, the cached balance is
  positive, and the stored balance covers every debit that is queued or yet to be issued.
\<close>

definition funded_before_20 :: "string \<Rightarrow> nat \<Rightarrow> world \<Rightarrow> bool" where
  "funded_before_20 uid k w =
     (isConnected w \<and> isTimerRunning w \<and> endCall_calls w = 0 \<and> uid_of (user w) = Some uid
      \<and> autoStartInitiated w \<and> \<not> autoStartTimer w
      \<and> 0 \<le> conversationTime w \<and> conversationTime w + int k \<le> 19
      \<and> list_all (\<lambda>d. d = 10) (pending_debits w)
      \<and> (case db w uid of
            None \<Rightarrow> False
          | Some d \<Rightarrow>
              (case doc_remaining d of
                 None \<Rightarrow> False
               | Some r \<Rightarrow>
                   10 * int (length (pending_debits w))
                     + (if conversationTime w < 10 then 10 else 0) < r))
      \<and> (case usage (hook w) of None \<Rightarrow> False | Some u \<Rightarrow> 0 < remaining_seconds u))"

text \<open>
  A cached record that is out of date. A call started with 1200 seconds runs for ten
  seconds; the debit is written, but the reload that follows it is rejected by the store;
  then the session disconnects. The store holds 1190 seconds, the cache still 1200.
\<close>

definition reload_rejected :: net_env where
  "reload_rejected = \<lparr>getDoc_result = NetOk, write_result = NetOk, reload_result = NetError\<rparr>"

definition stale_after_failed_reload :: world where
  "stale_after_failed_reload =
     onDisconnect (run (replicate 10 Tick @ [DebitSettles reload_rejected])
       (call_started ''u1'' 1200))"

text \<open>A view whose first load was rejected by the store.\<close>

definition first_load_failed :: world where
  "first_load_failed = usage_loaded NetError (mounted ''u1'' 1200)"

text \<open>Documents with an empty balance: a used-up trial and a used-up Basic plan.\<close>

definition used_up_trial :: user_doc where
  "used_up_trial =
     signup_doc\<lparr>doc_total_conversation_seconds := Some 1200, doc_remaining := Some 0\<rparr>"

definition used_up_basic :: user_doc where
  "used_up_basic =
     signup_doc\<lparr>doc_total_conversation_seconds := Some 2400, doc_remaining := Some 0,
       doc_plan := Some ''Basic''\<rparr>"

text \<open>The catalog of the subscription dialog.\<close>

definition plan1 :: SubscriptionPlan where
  "plan1 = \<lparr>plan_id = ''plan1'', calls = 1, minutes = 40, price = 249,
            description = ''1 call - 40 min''\<rparr>"

definition plan2 :: SubscriptionPlan where
  "plan2 = \<lparr>plan_id = ''plan2'', calls = 5, minutes = 200, price = 1150,
            description = ''5 calls - 200 min''\<rparr>"

definition plan3 :: SubscriptionPlan where
  "plan3 = \<lparr>plan_id = ''plan3'', calls = 10, minutes = 400, price = 2250,
            description = ''10 calls - 400 min''\<rparr>"

section \<open>Properties of the usage ledger\<close>

lemma js_rem_nonneg: "0 \<le> a \<Longrightarrow> 0 < b \<Longrightarrow> js_rem a b = a mod b"
  by (cases "a = 0") (simp_all add: js_rem_def)

lemma debit_fields_nonneg: "0 \<le> newRemaining (debit_fields snap d)"
  by (simp add: debit_fields_def split: option.splits)

lemma debit_write_remaining:
  "doc_remaining (debit_write snap d) = Some (newRemaining (debit_fields snap d))"
  by (simp add: debit_write_def updateDoc_usage_def setDoc_usage_def split: option.splits)

lemma debit_write_total:
  "doc_total_conversation_seconds (debit_write snap d) = Some (newUsage (debit_fields snap d))"
  by (simp add: debit_write_def updateDoc_usage_def setDoc_usage_def split: option.splits)

text \<open>
  Whatever snapshot a debit has read, also a stale one read while another debit was in
  flight, the balance it writes is not negative.
\<close>

lemma debit_write_nonneg: "\<exists>r. doc_remaining (debit_write snap d) = Some r \<and> 0 \<le> r"
  by (simp add: debit_write_remaining debit_fields_nonneg)

lemma updateUserUsage_keeps_nonneg:
  assumes "\<forall>k r. stored_remaining (fst s) k = Some r \<longrightarrow> 0 \<le> r"
  shows "\<forall>k r. stored_remaining (fst (updateUserUsage who env d s)) k = Some r \<longrightarrow> 0 \<le> r"
  using assms debit_fields_nonneg
  by (auto simp: updateUserUsage_def stored_remaining_def debit_write_remaining Let_def
      split: option.splits if_splits)

lemma updateUserUsage_fst:
  "uid_of who = Some uid \<Longrightarrow>
   fst (updateUserUsage who all_ok d s) = (fst s)(uid \<mapsto> debit_write (fst s uid) d)"
  by (simp add: updateUserUsage_def all_ok_def Let_def)

text \<open>The running total of a sequence of debits is the sum of the deltas.\<close>

lemma apply_debits_total_gen:
  assumes "uid_of who = Some uid" "ds \<noteq> []"
  shows "stored_total (fst (apply_debits who ds s)) uid =
         Some ((case fst s uid of None \<Rightarrow> 0
                | Some d \<Rightarrow> js_or_default (doc_total_conversation_seconds d) 0) + sum_list ds)"
  using assms
proof (induction ds arbitrary: s)
  case Nil
  then show ?case by simp
next
  case (Cons d ds)
  show ?case
  proof (cases "ds = []")
    case True
    with Cons.prems show ?thesis
      by (simp add: updateUserUsage_fst stored_total_def debit_write_total debit_fields_def
          split: option.splits)
  next
    case False
    with Cons show ?thesis
      by (simp add: updateUserUsage_fst debit_write_total debit_fields_def js_or_default_def
          split: option.splits)
  qed
qed

lemma apply_debits_total:
  "uid_of who = Some uid \<Longrightarrow> ds \<noteq> [] \<Longrightarrow>
   stored_total (fst (apply_debits who ds (Map.empty, l))) uid = Some (sum_list ds)"
  by (simp add: apply_debits_total_gen)

text \<open>
  Claim C1. A sequence of positive deltas applied one after the other to an absent record
  should leave the balance \<open>max 0 (FREE_LIMIT_SECONDS - sum)\<close> and the total \<open>sum\<close>.
  The code evaluated on 121 debits of 10 seconds: the total is the sum, 1210, but the
  balance is 1190 where the claim gives 0. The 120th debit stores 0; the 121st reads it
  through \<open>userData.remaining || FREE_LIMIT_SECONDS\<close> and starts again from 1200.
\<close>

theorem apply_debits_restarts_allotment_after_zero:
  "stored_remaining (fst (apply_debits (Some ''u1'') (replicate 121 10) (Map.empty, no_ledger))) ''u1''
     = Some 1190
   \<and> stored_total (fst (apply_debits (Some ''u1'') (replicate 121 10) (Map.empty, no_ledger))) ''u1''
     = Some 1210
   \<and> max 0 (FREE_LIMIT_SECONDS - sum_list (replicate 121 10)) = 0"
  by code_simp

text \<open>
  Claim C2. A debit on an existing record should never write a balance above the one
  stored before. The code evaluated on a used-up trial record (balance 0) and a debit of
  10 seconds: the balance stored before is 0, the balance written is 1190.
\<close>

theorem debit_on_used_up_trial_raises_balance:
  "stored_remaining (Map.empty(''u1'' \<mapsto> used_up_trial)) ''u1'' = Some 0
   \<and> stored_remaining (fst (updateUserUsage (Some ''u1'') all_ok 10
        (Map.empty(''u1'' \<mapsto> used_up_trial), no_ledger))) ''u1'' = Some 1190"
  by code_simp

text \<open>
  Claim C4. No written balance is negative (\<open>debit_write_nonneg\<close>,
  \<open>updateUserUsage_keeps_nonneg\<close>), but a debit that would drive the balance below zero
  should store exactly 0. The code evaluated on a used-up Basic plan (balance 0) and a
  debit of 10 seconds: 0 - 10 is below zero, and the balance written is 1190, not 0.
\<close>

theorem debit_on_used_up_plan_not_clamped:
  "stored_remaining (Map.empty(''u1'' \<mapsto> used_up_basic)) ''u1'' = Some 0
   \<and> (0::int) - 10 < 0
   \<and> stored_remaining (fst (updateUserUsage (Some ''u1'') all_ok 10
        (Map.empty(''u1'' \<mapsto> used_up_basic), no_ledger))) ''u1'' = Some 1190"
  by code_simp

text \<open>
  Claim C5. \<open>canStartCall\<close> is false when the cached record is null, and otherwise true
  exactly when \<open>remaining_seconds\<close> is positive: false at 0, true at 1 and at
  \<open>FREE_LIMIT_SECONDS\<close>.
\<close>

theorem canStartCall_iff_positive_balance:
  "canStartCall None = False
   \<and> (\<forall>u. canStartCall (Some u) = (0 < remaining_seconds u))
   \<and> canStartCall (Some (u\<lparr>remaining_seconds := 0\<rparr>)) = False
   \<and> canStartCall (Some (u\<lparr>remaining_seconds := 1\<rparr>)) = True
   \<and> canStartCall (Some (u\<lparr>remaining_seconds := FREE_LIMIT_SECONDS\<rparr>)) = True"
  by (simp add: canStartCall_def FREE_LIMIT_SECONDS_def)

section \<open>Properties of the payment check\<close>

text \<open>
  Claim C10. \<open>verifyPayment\<close> returns a truthy value exactly when the payment id and the
  order id of the response are both truthy. Nothing else of the response is looked at: the
  signature does not change the result.
\<close>

theorem verifyPayment_truthy_iff_both_ids:
  "truthy (verifyPayment r) = (truthy (razorpay_payment_id r) \<and> truthy (razorpay_order_id r))
   \<and> verifyPayment (r\<lparr>razorpay_signature := sg\<rparr>) = verifyPayment r"
  by (simp add: verifyPayment_def js_and_def)

section \<open>Properties of the formatted remaining time\<close>

lemma digit_char_props:
  assumes "d < 10"
  shows "is_digit (digit_char d)" and "digit_value (digit_char d) = d"
proof -
  from assms have "d = 0 \<or> d = 1 \<or> d = 2 \<or> d = 3 \<or> d = 4 \<or> d = 5 \<or> d = 6 \<or> d = 7 \<or> d = 8 \<or> d = 9"
    by arith
  then show "is_digit (digit_char d)" and "digit_value (digit_char d) = d"
    by (auto simp: digit_char_def is_digit_def digit_value_def)
qed

lemma nat_to_string_digits: "list_all is_digit (nat_to_string n)"
proof (induction n rule: nat_to_string.induct)
  case (1 n)
  show ?case
  proof (cases "n < 10")
    case True
    then show ?thesis by (simp add: nat_to_string.simps [of n] digit_char_props)
  next
    case False
    with 1 show ?thesis by (simp add: nat_to_string.simps [of n] digit_char_props)
  qed
qed

lemma digits_value_snoc: "digits_value (s @ [c]) = 10 * digits_value s + digit_value c"
  by (simp add: digits_value_def)

lemma nat_to_string_value: "digits_value (nat_to_string n) = n"
proof (induction n rule: nat_to_string.induct)
  case (1 n)
  show ?case
  proof (cases "n < 10")
    case True
    then show ?thesis by (simp add: nat_to_string.simps [of n] digit_char_props digits_value_def)
  next
    case False
    with 1 show ?thesis
      by (simp add: nat_to_string.simps [of n] digit_char_props digits_value_snoc)
  qed
qed

lemma nat_to_string_length_pos: "0 < length (nat_to_string n)"
  by (subst nat_to_string.simps) simp

lemma nat_to_string_length1: "n < 10 \<Longrightarrow> length (nat_to_string n) = 1"
  by (subst nat_to_string.simps) simp

lemma nat_to_string_length2: "10 \<le> n \<Longrightarrow> n < 100 \<Longrightarrow> length (nat_to_string n) = 2"
  by (subst nat_to_string.simps) (simp add: nat_to_string_length1)

lemma nat_to_string_length3: "100 \<le> n \<Longrightarrow> 3 \<le> length (nat_to_string n)"
proof -
  assume h: "100 \<le> n"
  then have "10 \<le> n div 10" by simp
  then have "length (nat_to_string (n div 10)) = Suc (length (nat_to_string (n div 10 div 10)))"
    by (subst nat_to_string.simps) simp
  then have "2 \<le> length (nat_to_string (n div 10))"
    using nat_to_string_length_pos [of "n div 10 div 10"] by linarith
  moreover from h have "length (nat_to_string n) = Suc (length (nat_to_string (n div 10)))"
    by (subst nat_to_string.simps) simp
  ultimately show ?thesis by simp
qed

lemma digits_value_zeros: "digits_value (replicate k CHR ''0'' @ s) = digits_value s"
proof -
  have "foldl (\<lambda>acc c. 10 * acc + digit_value c) 0 (replicate k CHR ''0'') = 0"
    by (induction k) (simp_all add: digit_value_def)
  then show ?thesis by (simp add: digits_value_def)
qed

lemma pad2_length: "length (padStart 2 CHR ''0'' (nat_to_string n)) = 2 \<longleftrightarrow> n < 100"
proof (cases "n < 10")
  case True then show ?thesis by (simp add: padStart_def nat_to_string_length1)
next
  case False
  show ?thesis
  proof (cases "n < 100")
    case True with False show ?thesis by (simp add: padStart_def nat_to_string_length2)
  next
    case False
    then have "3 \<le> length (nat_to_string n)" by (simp add: nat_to_string_length3)
    with False show ?thesis by (simp add: padStart_def)
  qed
qed

lemma pad2_min_length: "2 \<le> length (padStart 2 CHR ''0'' (nat_to_string n))"
  using nat_to_string_length_pos [of n] by (simp add: padStart_def)

lemma pad2_digits: "list_all is_digit (padStart 2 CHR ''0'' (nat_to_string n))"
  using nat_to_string_digits [of n] by (auto simp: padStart_def list_all_iff is_digit_def)

lemma pad2_value: "digits_value (padStart 2 CHR ''0'' (nat_to_string n)) = n"
  by (simp add: padStart_def digits_value_zeros nat_to_string_value)

lemma pad2_two_digit: "two_digit (padStart 2 CHR ''0'' (nat_to_string n)) \<longleftrightarrow> n < 100"
  by (simp add: two_digit_def pad2_length pad2_digits)

lemma split_colon_digits: "list_all is_digit s \<Longrightarrow> split_colon s = [s]"
  by (induction s) (auto simp: is_digit_def)

lemma split_colon_append:
  "list_all is_digit a \<Longrightarrow> split_colon (a @ CHR '':'' # b) = a # split_colon b"
  by (induction a) (auto simp: is_digit_def)

lemma toString_nonneg: "0 \<le> i \<Longrightarrow> toString i = nat_to_string (nat i)"
  by (simp add: toString_def)

lemma formatRemainingTime_nonneg:
  assumes "0 \<le> remaining_seconds u"
  shows "formatRemainingTime (Some u) =
     padStart 2 CHR ''0'' (nat_to_string (nat (remaining_seconds u div 60))) @ CHR '':'' #
     padStart 2 CHR ''0'' (nat_to_string (nat (remaining_seconds u mod 60)))"
  using assms by (simp add: formatRemainingTime_def Let_def js_rem_nonneg toString_nonneg)

lemma formatRemainingTimeDetailed_nonneg:
  assumes "0 \<le> remaining_seconds u"
  shows "formatRemainingTimeDetailed (Some u) =
     padStart 2 CHR ''0'' (nat_to_string (nat (remaining_seconds u div 3600))) @ CHR '':'' #
     padStart 2 CHR ''0'' (nat_to_string (nat (remaining_seconds u mod 3600 div 60))) @ CHR '':'' #
     padStart 2 CHR ''0'' (nat_to_string (nat (remaining_seconds u mod 60)))"
  using assms by (simp add: formatRemainingTimeDetailed_def Let_def js_rem_nonneg toString_nonneg)

lemma split_mmss:
  "split_colon (padStart 2 CHR ''0'' (nat_to_string a) @ CHR '':'' # padStart 2 CHR ''0'' (nat_to_string b))
   = [padStart 2 CHR ''0'' (nat_to_string a), padStart 2 CHR ''0'' (nat_to_string b)]"
  by (simp add: split_colon_append split_colon_digits pad2_digits)

lemma split_hhmmss:
  "split_colon (padStart 2 CHR ''0'' (nat_to_string a) @ CHR '':'' # padStart 2 CHR ''0'' (nat_to_string b)
      @ CHR '':'' # padStart 2 CHR ''0'' (nat_to_string c))
   = [padStart 2 CHR ''0'' (nat_to_string a), padStart 2 CHR ''0'' (nat_to_string b),
      padStart 2 CHR ''0'' (nat_to_string c)]"
  by (simp add: split_colon_append split_colon_digits pad2_digits)

text \<open>
  Claim C8, as the code has it. Both helpers are functions of the cached record alone. For
  a balance that is not negative, \<open>formatRemainingTime\<close> gives two decimal fields separated
  by a colon, reading \<open>remaining_seconds div 60\<close> and \<open>remaining_seconds mod 60\<close>, each
  padded with zeros to at least two digits; the seconds field has exactly two digits, the
  minutes field has exactly two digits exactly when the balance is below 6000 seconds.
  \<open>formatRemainingTimeDetailed\<close> gives hours, minutes and seconds in the same way; the
  hours field has exactly two digits exactly when the balance is below 360000 seconds.
  0 formats as 00:00, 725 as 12:05, 3725 in the detailed form as 01:02:05, and a null
  record as 00:00 and 00:00:00.
\<close>

theorem formatRemainingTime_fields:
  assumes "0 \<le> remaining_seconds u"
  shows "(\<exists>m s. split_colon (formatRemainingTime (Some u)) = [m, s]
            \<and> list_all is_digit m \<and> 2 \<le> length m \<and> two_digit s
            \<and> two_digit m = (remaining_seconds u < 6000)
            \<and> int (digits_value m) = remaining_seconds u div 60
            \<and> int (digits_value s) = remaining_seconds u mod 60)
       \<and> (\<exists>h m s. split_colon (formatRemainingTimeDetailed (Some u)) = [h, m, s]
            \<and> list_all is_digit h \<and> 2 \<le> length h \<and> two_digit m \<and> two_digit s
            \<and> two_digit h = (remaining_seconds u < 360000)
            \<and> int (digits_value h) = remaining_seconds u div 3600
            \<and> int (digits_value m) = remaining_seconds u mod 3600 div 60
            \<and> int (digits_value s) = remaining_seconds u mod 60)
       \<and> formatRemainingTime (Some (u\<lparr>remaining_seconds := 0\<rparr>)) = ''00:00''
       \<and> formatRemainingTime (Some (u\<lparr>remaining_seconds := 725\<rparr>)) = ''12:05''
       \<and> formatRemainingTimeDetailed (Some (u\<lparr>remaining_seconds := 3725\<rparr>)) = ''01:02:05''
       \<and> formatRemainingTime None = ''00:00''
       \<and> formatRemainingTimeDetailed None = ''00:00:00''"
proof -
  let ?r = "remaining_seconds u"
  have a: "nat (?r mod 60) < 100" by simp
  have "?r mod 3600 div 60 < 60" by simp
  then have c: "nat (?r mod 3600 div 60) < 100" by simp
  have d: "0 \<le> ?r mod 3600 div 60" by simp
  have b: "(nat (?r div 60) < 100) = (?r < 6000)" using assms by auto
  have b': "(nat (?r div 3600) < 100) = (?r < 360000)" using assms by auto
  have mmss: "\<exists>m s. split_colon (formatRemainingTime (Some u)) = [m, s]
            \<and> list_all is_digit m \<and> 2 \<le> length m \<and> two_digit s
            \<and> two_digit m = (?r < 6000)
            \<and> int (digits_value m) = ?r div 60
            \<and> int (digits_value s) = ?r mod 60"
    using assms a b
    by (simp add: formatRemainingTime_nonneg split_mmss pad2_digits pad2_min_length
        pad2_two_digit pad2_value)
  have hhmmss: "\<exists>h m s. split_colon (formatRemainingTimeDetailed (Some u)) = [h, m, s]
            \<and> list_all is_digit h \<and> 2 \<le> length h \<and> two_digit m \<and> two_digit s
            \<and> two_digit h = (?r < 360000)
            \<and> int (digits_value h) = ?r div 3600
            \<and> int (digits_value m) = ?r mod 3600 div 60
            \<and> int (digits_value s) = ?r mod 60"
    using assms a b' c d
    by (simp add: formatRemainingTimeDetailed_nonneg split_hhmmss pad2_digits pad2_min_length
        pad2_two_digit pad2_value)
  have e0: "formatRemainingTime (Some (u\<lparr>remaining_seconds := 0\<rparr>)) = ''00:00''"
    by (simp add: formatRemainingTime_def js_rem_def toString_def padStart_def
        nat_to_string.simps digit_char_def)
  have e1: "formatRemainingTime (Some (u\<lparr>remaining_seconds := 725\<rparr>)) = ''12:05''"
    by (simp add: formatRemainingTime_def js_rem_def toString_def padStart_def
        nat_to_string.simps digit_char_def)
  have e2: "formatRemainingTimeDetailed (Some (u\<lparr>remaining_seconds := 3725\<rparr>)) = ''01:02:05''"
    by (simp add: formatRemainingTimeDetailed_def js_rem_def toString_def padStart_def
        nat_to_string.simps digit_char_def)
  have e3: "formatRemainingTime None = ''00:00''"
    by (simp add: formatRemainingTime_def)
  have e4: "formatRemainingTimeDetailed None = ''00:00:00''"
    by (simp add: formatRemainingTimeDetailed_def)
  from mmss hhmmss e0 e1 e2 e3 e4 show ?thesis by blast
qed

theorem formatRemainingTime_fields_witness:
  "0 \<le> remaining_seconds (loaded_usage (Some signup_doc))
   \<and> formatRemainingTime (Some (loaded_usage (Some signup_doc)\<lparr>remaining_seconds := 725\<rparr>)) = ''12:05''
   \<and> (\<exists>m s. split_colon (formatRemainingTime (Some (loaded_usage (Some signup_doc)))) = [m, s]
         \<and> two_digit m = (remaining_seconds (loaded_usage (Some signup_doc)) < 6000)
         \<and> int (digits_value m) = remaining_seconds (loaded_usage (Some signup_doc)) div 60)"
proof -
  have h: "0 \<le> remaining_seconds (loaded_usage (Some signup_doc))"
    by (simp add: loaded_usage_def signup_doc_def js_defined_or_def)
  from formatRemainingTime_fields [OF h] show ?thesis using h by blast
qed

text \<open>
  The claim as stated, with fields of always two digits, fails on the balance a Pro plan
  grants: 12000 seconds format as 200:00, whose minutes field has three digits.
\<close>

theorem formatRemainingTime_pro_grant_three_digits:
  "formatRemainingTime
     (Some (loaded_usage (Some (signup_doc\<lparr>doc_remaining := Some 12000\<rparr>)))) = ''200:00''
   \<and> \<not> list_all two_digit (split_colon (formatRemainingTime
         (Some (loaded_usage (Some (signup_doc\<lparr>doc_remaining := Some 12000\<rparr>))))))"
  by code_simp

section \<open>Properties of the call view\<close>

lemma funded_tick:
  assumes "funded_before_20 uid (Suc k) w"
  shows "funded_before_20 uid k (timer_tick w)"
proof -
  let ?t = "conversationTime w"
  from assms have t: "0 \<le> ?t" "?t \<le> 18" by (simp_all add: funded_before_20_def)
  then have rem: "js_rem (?t + 1) 10 = (?t + 1) mod 10" by (simp add: js_rem_nonneg)
  show ?thesis
  proof (cases "(?t + 1) mod 10 = 0")
    case True
    with t have "?t = 9" by presburger
    with assms rem show ?thesis
      by (auto simp: funded_before_20_def timer_tick_def Let_def split: option.splits)
  next
    case False
    with assms rem show ?thesis
      by (auto simp: funded_before_20_def timer_tick_def Let_def split: option.splits if_splits)
  qed
qed

lemma funded_check:
  assumes "funded_before_20 uid k w"
  shows "exhaustion_check w = w"
  using assms by (auto simp: funded_before_20_def exhaustion_check_def exhausted_def split: option.splits)

lemma funded_auto_start:
  assumes "funded_before_20 uid k w"
  shows "auto_start_effect mic session_ok w = w"
  using assms by (simp add: funded_before_20_def auto_start_effect_def)

lemma funded_auto_start_timeout:
  assumes "funded_before_20 uid k w"
  shows "auto_start_timeout mic session_ok w = w"
  using assms by (simp add: funded_before_20_def auto_start_timeout_def)

lemma funded_settles:
  assumes "funded_before_20 uid k w"
  shows "funded_before_20 uid k (debit_settles env w)"
proof (cases "pending_debits w")
  case Nil
  with assms show ?thesis by (simp add: debit_settles_def)
next
  case (Cons d ds)
  with assms have d: "d = 10" by (simp add: funded_before_20_def)
  from assms obtain doc r u where doc: "db w uid = Some doc" "doc_remaining doc = Some r"
    and u: "usage (hook w) = Some u" "0 < remaining_seconds u"
    and r: "10 * int (length (pending_debits w)) + (if conversationTime w < 10 then 10 else 0) < r"
    by (auto simp: funded_before_20_def split: option.splits)
  from r Cons have r10: "10 < r" by (simp split: if_splits)
  from assms have uid: "uid_of (user w) = Some uid" by (simp add: funded_before_20_def)
  have dw: "doc_remaining (debit_write (Some doc) 10) = Some (r - 10)"
    using doc r10
    by (simp add: debit_write_def updateDoc_usage_def debit_fields_def js_or_default_def)
  show ?thesis
  proof (cases "getDoc_result env = NetError \<or> write_result env = NetError")
    case True
    with assms Cons uid show ?thesis
      by (auto simp: funded_before_20_def debit_settles_def updateUserUsage_def Let_def
          split: option.splits if_splits)
  next
    case False
    then have s: "updateUserUsage (user w) env 10 (db w, hook w) =
       ((db w)(uid \<mapsto> debit_write (Some doc) 10),
        loadUserUsage (user w) (reload_result env) ((db w)(uid \<mapsto> debit_write (Some doc) 10)) (hook w))"
      using uid doc by (simp add: updateUserUsage_def Let_def)
    have l: "case usage (loadUserUsage (user w) (reload_result env)
                 ((db w)(uid \<mapsto> debit_write (Some doc) 10)) (hook w)) of
               None \<Rightarrow> False | Some u \<Rightarrow> 0 < remaining_seconds u"
      using uid u dw r10
      by (cases "reload_result env")
         (simp_all add: loadUserUsage_def loadUserUsage_end_def loadUserUsage_begin_def
            loaded_usage_def js_defined_or_def Let_def)
    from assms Cons d r dw l show ?thesis
      by (simp add: funded_before_20_def debit_settles_def s Let_def split: if_splits)
  qed
qed

lemma funded_run:
  "funded_before_20 uid k w \<Longrightarrow> count_list evs Tick \<le> k \<Longrightarrow>
   \<exists>k'. funded_before_20 uid k' (run evs w)"
proof (induction evs arbitrary: w k)
  case Nil
  then show ?case by auto
next
  case (Cons e evs)
  show ?case
  proof (cases e)
    case Tick
    with Cons.prems obtain k0 where k: "k = Suc k0" by (cases k) auto
    with Cons.prems Tick have "funded_before_20 uid k0 (timer_tick w)" "count_list evs Tick \<le> k0"
      by (auto intro: funded_tick)
    with Cons.IH Tick show ?thesis by simp
  next
    case (DebitSettles env)
    with Cons.prems have "funded_before_20 uid k (debit_settles env w)" "count_list evs Tick \<le> k"
      by (auto intro: funded_settles)
    with Cons.IH DebitSettles show ?thesis by simp
  next
    case Check
    with Cons.prems have "funded_before_20 uid k (exhaustion_check w)" "count_list evs Tick \<le> k"
      by (auto simp: funded_check)
    with Cons.IH Check show ?thesis by simp
  next
    case (AutoStart mic session_ok)
    with Cons.prems have "funded_before_20 uid k (auto_start_effect mic session_ok w)"
      "count_list evs Tick \<le> k"
      by (auto simp: funded_auto_start)
    with Cons.IH AutoStart show ?thesis by simp
  next
    case (AutoStartTimeout mic session_ok)
    with Cons.prems have "funded_before_20 uid k (auto_start_timeout mic session_ok w)"
      "count_list evs Tick \<le> k"
      by (auto simp: funded_auto_start_timeout)
    with Cons.IH AutoStartTimeout show ?thesis by simp
  qed
qed

lemma call_started_funded: "funded_before_20 ''u1'' 19 (call_started ''u1'' 15)"
  by (simp add: funded_before_20_def call_started_def usage_loaded_def auto_start_effect_def
      begin_session_def mounted_def onConnect_def startCall_def
      loadUserUsage_def loadUserUsage_end_def loadUserUsage_begin_def loaded_usage_def
      uid_of_def no_ledger_def signup_doc_def js_defined_or_def js_or_default_def canStartCall_def Let_def)


text \<open>
  Claim C3, as the code has it. A call started with 15 seconds stored is not ended at
  15 seconds. The exhaustion check, the effect and the one-second poll alike, reads the
  cached record: it ends the call exactly when the call is connected and the cached
  balance is not positive, and neither a tick nor the check changes the cache or the store;
  only the reload after a debit does. So in every order of ticks, settling debits, checks
  and auto-start effects with fewer than 20 ticks the call stays connected, the timer keeps
  running and \<open>endCall\<close> has not been called. When no store call is delayed, store and
  cache hold 5 seconds at 19 seconds; the debit issued at 20 seconds stores 0, the reload
  caches 0, and the check ends the call at 20 seconds: \<open>endCall\<close> is called by the check
  and once more by the cleanup of the effect on \<open>isConnected\<close>. While that debit has not
  settled the call goes on: after 25 ticks and a check with no debit settled it is still
  connected.
\<close>

theorem call_with_15_seconds_ends_at_20:
  "(count_list evs Tick < 20 \<longrightarrow>
      isConnected (run evs (call_started ''u1'' 15))
      \<and> isTimerRunning (run evs (call_started ''u1'' 15))
      \<and> endCall_calls (run evs (call_started ''u1'' 15)) = 0)
   \<and> stored_remaining (db (run (seconds 19) (call_started ''u1'' 15))) ''u1'' = Some 5
   \<and> map_option remaining_seconds (usage (hook (run (seconds 19) (call_started ''u1'' 15)))) = Some 5
   \<and> stored_remaining (db (run (seconds 20) (call_started ''u1'' 15))) ''u1'' = Some 0
   \<and> map_option remaining_seconds (usage (hook (run (seconds 20) (call_started ''u1'' 15)))) = Some 0
   \<and> conversationTime (run (seconds 20) (call_started ''u1'' 15)) = 20
   \<and> isConnected (run (seconds 20) (call_started ''u1'' 15)) = False
   \<and> isTimerRunning (run (seconds 20) (call_started ''u1'' 15)) = False
   \<and> endCall_calls (run (seconds 20) (call_started ''u1'' 15)) = 2
   \<and> conversationTime (run (replicate 25 Tick @ [Check]) (call_started ''u1'' 15)) = 25
   \<and> isConnected (run (replicate 25 Tick @ [Check]) (call_started ''u1'' 15)) = True
   \<and> hook (timer_tick w) = hook w \<and> db (timer_tick w) = db w
   \<and> hook (exhaustion_check w) = hook w \<and> db (exhaustion_check w) = db w
   \<and> isConnected (exhaustion_check w) =
       (isConnected w \<and> (case usage (hook w) of None \<Rightarrow> True | Some u \<Rightarrow> 0 < remaining_seconds u))"
proof -
  have a: "count_list evs Tick < 20 \<longrightarrow>
      isConnected (run evs (call_started ''u1'' 15))
      \<and> isTimerRunning (run evs (call_started ''u1'' 15))
      \<and> endCall_calls (run evs (call_started ''u1'' 15)) = 0"
  proof
    assume "count_list evs Tick < 20"
    then have "count_list evs Tick \<le> 19" by simp
    with call_started_funded obtain k' where
      "funded_before_20 ''u1'' k' (run evs (call_started ''u1'' 15))"
      using funded_run by blast
    then show "isConnected (run evs (call_started ''u1'' 15))
      \<and> isTimerRunning (run evs (call_started ''u1'' 15))
      \<and> endCall_calls (run evs (call_started ''u1'' 15)) = 0"
      by (simp add: funded_before_20_def)
  qed
  have s19: "stored_remaining (db (run (seconds 19) (call_started ''u1'' 15))) ''u1'' = Some 5"
    by code_simp
  have c19: "map_option remaining_seconds (usage (hook (run (seconds 19) (call_started ''u1'' 15)))) = Some 5"
    by code_simp
  have s20: "stored_remaining (db (run (seconds 20) (call_started ''u1'' 15))) ''u1'' = Some 0"
    by code_simp
  have c20: "map_option remaining_seconds (usage (hook (run (seconds 20) (call_started ''u1'' 15)))) = Some 0"
    by code_simp
  have b: "conversationTime (run (seconds 20) (call_started ''u1'' 15)) = 20"
    by code_simp
  have c: "isConnected (run (seconds 20) (call_started ''u1'' 15)) = False"
    by code_simp
  have d: "isTimerRunning (run (seconds 20) (call_started ''u1'' 15)) = False"
    by code_simp
  have e: "endCall_calls (run (seconds 20) (call_started ''u1'' 15)) = 2"
    by code_simp
  have f: "conversationTime (run (replicate 25 Tick @ [Check]) (call_started ''u1'' 15)) = 25"
    by code_simp
  have g: "isConnected (run (replicate 25 Tick @ [Check]) (call_started ''u1'' 15)) = True"
    by code_simp
  have h: "hook (timer_tick w) = hook w \<and> db (timer_tick w) = db w"
    by (simp add: timer_tick_def Let_def)
  have i: "hook (exhaustion_check w) = hook w \<and> db (exhaustion_check w) = db w"
    by (simp add: exhaustion_check_def endCall_def endCall_requested_def onDisconnect_def
        returnToFlutterFlow_def Let_def)
  have j: "isConnected (exhaustion_check w) =
       (isConnected w \<and> (case usage (hook w) of None \<Rightarrow> True | Some u \<Rightarrow> 0 < remaining_seconds u))"
    by (auto simp: exhaustion_check_def exhausted_def endCall_def endCall_requested_def
        onDisconnect_def returnToFlutterFlow_def Let_def split: option.splits)
  from a s19 c19 s20 c20 b c d e f g h i j show ?thesis by blast
qed

theorem call_with_15_seconds_ends_at_20_witness:
  "count_list (replicate 19 Tick @ [DebitSettles all_ok, Check]) Tick < 20
   \<and> isConnected (run (replicate 19 Tick @ [DebitSettles all_ok, Check]) (call_started ''u1'' 15))"
proof -
  have h: "count_list (replicate 19 Tick @ [DebitSettles all_ok, Check]) Tick < 20"
    by code_simp
  with call_with_15_seconds_ends_at_20 [of "replicate 19 Tick @ [DebitSettles all_ok, Check]"] show ?thesis by blast
qed

text \<open>
  The claim as stated fails: after 15 seconds in which nothing is delayed the call is
  still connected, the timer runs and \<open>endCall\<close> has not been called.
\<close>

theorem call_with_15_seconds_runs_at_15:
  "conversationTime (run (seconds 15) (call_started ''u1'' 15)) = 15
   \<and> isConnected (run (seconds 15) (call_started ''u1'' 15))
   \<and> isTimerRunning (run (seconds 15) (call_started ''u1'' 15))
   \<and> endCall_calls (run (seconds 15) (call_started ''u1'' 15)) = 0"
  by code_simp

lemma run_append: "run (xs @ ys) w = run ys (run xs w)"
  by (induction xs arbitrary: w) simp_all

lemma timer_tick_running:
  assumes "isTimerRunning w" and "0 \<le> conversationTime w"
  shows "isTimerRunning (timer_tick w)"
    and "conversationTime (timer_tick w) = conversationTime w + 1"
    and "pending_debits (timer_tick w) =
           pending_debits w @ (if (conversationTime w + 1) mod 10 = 0 then [10] else [])"
    and "db (timer_tick w) = db w"
    and "hook (timer_tick w) = hook w"
proof -
  from assms(2) have rem: "js_rem (conversationTime w + 1) 10 = (conversationTime w + 1) mod 10"
    by (simp add: js_rem_nonneg)
  from assms(1) show "isTimerRunning (timer_tick w)"
    by (simp add: timer_tick_def Let_def)
  from assms(1) show "conversationTime (timer_tick w) = conversationTime w + 1"
    by (simp add: timer_tick_def Let_def)
  from assms(1) rem show "pending_debits (timer_tick w) =
           pending_debits w @ (if (conversationTime w + 1) mod 10 = 0 then [10] else [])"
    by (simp add: timer_tick_def Let_def)
  from assms(1) show "db (timer_tick w) = db w"
    by (simp add: timer_tick_def Let_def)
  from assms(1) show "hook (timer_tick w) = hook w"
    by (simp add: timer_tick_def Let_def)
qed

lemma run_ticks_Suc: "run (replicate (Suc n) Tick) w = timer_tick (run (replicate n Tick) w)"
proof -
  have "replicate (Suc n) Tick = replicate n Tick @ [Tick]"
    by (simp add: replicate_append_same)
  then show ?thesis
    by (simp only: run_append run.simps step.simps)
qed

lemma ticks_after_connect:
  "isTimerRunning (run (replicate n Tick) (onConnect w))
   \<and> conversationTime (run (replicate n Tick) (onConnect w)) = int n
   \<and> pending_debits (run (replicate n Tick) (onConnect w)) = pending_debits w @ replicate (n div 10) 10
   \<and> db (run (replicate n Tick) (onConnect w)) = db w
   \<and> hook (run (replicate n Tick) (onConnect w)) = hook w"
proof (induction n)
  case 0
  show ?case by (simp add: onConnect_def)
next
  case (Suc n)
  let ?w = "run (replicate n Tick) (onConnect w)"
  from Suc have run: "isTimerRunning ?w" and t: "conversationTime ?w = int n"
    and p: "pending_debits ?w = pending_debits w @ replicate (n div 10) 10"
    and d: "db ?w = db w" and h: "hook ?w = hook w"
    by simp_all
  from t have nn: "0 \<le> conversationTime ?w" by simp
  have m: "((int n + 1) mod 10 = 0) = (Suc n mod 10 = 0)"
  proof -
    have "int n + 1 = int (Suc n)" by simp
    then have "(int n + 1) mod 10 = int (Suc n mod 10)" by (simp only: zmod_int) simp
    then show ?thesis by simp
  qed
  have q: "replicate (n div 10) (10::int) @ (if Suc n mod 10 = 0 then [10] else [])
             = replicate (Suc n div 10) 10"
    by (simp add: div_Suc replicate_append_same)
  have p': "pending_debits (timer_tick ?w) = pending_debits w @ replicate (Suc n div 10) 10"
    unfolding timer_tick_running(3) [OF run nn] p t m using q by simp
  have t': "conversationTime (timer_tick ?w) = int (Suc n)"
    unfolding timer_tick_running(2) [OF run nn] t by simp
  show ?case
    unfolding run_ticks_Suc
    using timer_tick_running(1) [OF run nn] t' p' timer_tick_running(4) [OF run nn]
      timer_tick_running(5) [OF run nn] d h
    by simp
qed

text \<open>
  Claim C6. From the connection on, after \<open>n\<close> ticks of the running timer the elapsed time
  is \<open>n\<close> and the timer has issued one debit of exactly 10 seconds for each multiple of 10
  reached, \<open>n div 10\<close> debits in all. The seconds not yet debited, the elapsed time minus
  ten times the number of debits issued, lie between 0 and 9. The tick does not wait for
  the store: it leaves the store and the ledger untouched, only queues the call, and gives
  the same result whatever the store and the ledger hold.
\<close>

theorem timer_issues_debit_every_ten_seconds:
  "conversationTime (run (replicate n Tick) (onConnect w)) = int n
   \<and> pending_debits (run (replicate n Tick) (onConnect w)) = pending_debits w @ replicate (n div 10) 10
   \<and> 0 \<le> conversationTime (run (replicate n Tick) (onConnect w)) - 10 * int (n div 10)
   \<and> conversationTime (run (replicate n Tick) (onConnect w)) - 10 * int (n div 10) \<le> 9
   \<and> db (run (replicate n Tick) (onConnect w)) = db w
   \<and> hook (run (replicate n Tick) (onConnect w)) = hook w
   \<and> timer_tick (w\<lparr>db := s, hook := l\<rparr>) = (timer_tick w)\<lparr>db := s, hook := l\<rparr>"
proof -
  have "n = 10 * (n div 10) + n mod 10" by simp
  moreover have "n mod 10 < 10" by simp
  ultimately have a: "0 \<le> int n - 10 * int (n div 10)" "int n - 10 * int (n div 10) \<le> 9"
    by linarith+
  have b: "timer_tick (w\<lparr>db := s, hook := l\<rparr>) = (timer_tick w)\<lparr>db := s, hook := l\<rparr>"
    by (simp add: timer_tick_def Let_def)
  from ticks_after_connect [of n w] a b show ?thesis by simp
qed

text \<open>
  Claim C9, as the code has it. While the cached record is null (never loaded, or every
  load so far rejected) or a load is in flight, \<open>startCall\<close> only shows the toast
  "Checking your remaining time..." and does not call \<open>startSession\<close>. A rejected load
  only lowers the loading flag and leaves the cached record as it was. With a cached
  record and no load in flight, \<open>startCall\<close> gates on the cached balance: it calls
  \<open>startSession\<close> when that balance is positive and opens the subscription dialog
  otherwise, in both cases without the toast.
\<close>

theorem startCall_waits_without_usage:
  "(isLoading (hook w) \<or> usage (hook w) = None \<longrightarrow>
      startCall mic session_ok w =
        w\<lparr>toasts := toasts w @ [(''Please wait'', ''Checking your remaining time...'')]\<rparr>
      \<and> startSession_calls (startCall mic session_ok w) = startSession_calls w)
   \<and> isLoading (loadUserUsage_begin l)
   \<and> loadUserUsage_end NetError snap l = l\<lparr>isLoading := False\<rparr>
   \<and> loadUserUsage who NetError st l = (if uid_of who = None then l else l\<lparr>isLoading := False\<rparr>)
   \<and> (\<not> isLoading (hook v) \<and> usage (hook v) = Some u \<longrightarrow>
        startSession_calls (startCall mic session_ok v) =
          (if 0 < remaining_seconds u then Suc (startSession_calls v) else startSession_calls v)
        \<and> showSubscriptionModal (startCall mic session_ok v) =
          (if 0 < remaining_seconds u then showSubscriptionModal v else True)
        \<and> toasts (startCall mic True v) = toasts v)"
  by (auto simp: startCall_def begin_session_def canStartCall_def loadUserUsage_begin_def
      loadUserUsage_end_def loadUserUsage_def Let_def split: option.splits)

theorem startCall_waits_without_usage_witness:
  "(isLoading (hook first_load_failed) \<or> usage (hook first_load_failed) = None)
   \<and> startSession_calls (startCall (Some True) True first_load_failed) = 0
   \<and> toasts (startCall (Some True) True first_load_failed) =
       [(''Please wait'', ''Checking your remaining time...'')]
   \<and> \<not> isLoading (hook stale_after_failed_reload)
   \<and> usage (hook stale_after_failed_reload) = Some (loaded_usage (Some signup_doc))
   \<and> startSession_calls (startCall (Some True) True stale_after_failed_reload) =
       Suc (startSession_calls stale_after_failed_reload)"
proof -
  have h: "isLoading (hook first_load_failed) \<or> usage (hook first_load_failed) = None"
    by code_simp
  have s: "startSession_calls first_load_failed = 0" "toasts first_load_failed = []"
    by code_simp+
  have k: "\<not> isLoading (hook stale_after_failed_reload)
     \<and> usage (hook stale_after_failed_reload) = Some (loaded_usage (Some signup_doc))"
    by code_simp
  have r: "0 < remaining_seconds (loaded_usage (Some signup_doc))"
    by code_simp
  from startCall_waits_without_usage [of first_load_failed "Some True" True _ _ _ _ stale_after_failed_reload
      "loaded_usage (Some signup_doc)"] h s k r
  show ?thesis by simp
qed

text \<open>
  The claim as stated, with every rejected load making the balance unknown, fails. In a
  call that the auto-start began, the reload after the first debit is rejected and the
  session then disconnects: the store holds 1190 seconds, the cache still the 1200 of the
  first load. \<open>startCall\<close> then calls \<open>startSession\<close> a second time on the cached record,
  without a toast.
\<close>

theorem startCall_starts_on_stale_usage:
  "stored_remaining (db stale_after_failed_reload) ''u1'' = Some 1190
   \<and> map_option remaining_seconds (usage (hook stale_after_failed_reload)) = Some 1200
   \<and> isLoading (hook stale_after_failed_reload) = False
   \<and> isConnected stale_after_failed_reload = False
   \<and> startSession_calls stale_after_failed_reload = 1
   \<and> startSession_calls (startCall (Some True) True stale_after_failed_reload) = 2
   \<and> toasts (startCall (Some True) True stale_after_failed_reload) = toasts stale_after_failed_reload"
  by code_simp

section \<open>Properties of the plan upgrade\<close>

text \<open>
  Claim C7. For a signed-in user whose document exists and a write that the store accepts,
  \<open>updateSubscription\<close> maps the price 249 to Basic with 2400 seconds, 1150 to Pro with
  12000 seconds and 2250 to Premium with 24000 seconds; whatever the document held, the
  balance becomes the granted amount and the total becomes 0. Any other price returns the
  failure and leaves the store as it was. After each of the three grants on a record whose
  balance was 0, a reload caches the granted balance with a total of 0, and \<open>canStartCall\<close>
  on it gives true.
\<close>

theorem updateSubscription_grants_by_price:
  assumes "uid_of who = Some uid" and "st uid = Some d"
    and "p \<noteq> 249" and "p \<noteq> 1150" and "p \<noteq> 2250"
  shows "updateSubscription who None (pl\<lparr>price := 249\<rparr>) st =
           (\<lparr>success = True, error = None\<rparr>,
            st(uid \<mapsto> d\<lparr>doc_plan := Some ''Basic'', doc_remaining := Some 2400,
                            doc_total_conversation_seconds := Some 0\<rparr>))
       \<and> updateSubscription who None (pl\<lparr>price := 1150\<rparr>) st =
           (\<lparr>success = True, error = None\<rparr>,
            st(uid \<mapsto> d\<lparr>doc_plan := Some ''Pro'', doc_remaining := Some 12000,
                            doc_total_conversation_seconds := Some 0\<rparr>))
       \<and> updateSubscription who None (pl\<lparr>price := 2250\<rparr>) st =
           (\<lparr>success = True, error = None\<rparr>,
            st(uid \<mapsto> d\<lparr>doc_plan := Some ''Premium'', doc_remaining := Some 24000,
                            doc_total_conversation_seconds := Some 0\<rparr>))
       \<and> updateSubscription who fails (pl\<lparr>price := p\<rparr>) st =
           (\<lparr>success = False, error = Some ''Invalid plan selected''\<rparr>, st)
       \<and> usage (loadUserUsage who NetOk
           (snd (updateSubscription who None (pl\<lparr>price := 249\<rparr>)
                  (st(uid \<mapsto> d\<lparr>doc_remaining := Some 0\<rparr>)))) l) =
           Some \<lparr>total_conversation_seconds = 0, remaining_seconds = 2400,
                 remaining_minutes = 40, remaining_hours = 0\<rparr>
       \<and> usage (loadUserUsage who NetOk
           (snd (updateSubscription who None (pl\<lparr>price := 1150\<rparr>)
                  (st(uid \<mapsto> d\<lparr>doc_remaining := Some 0\<rparr>)))) l) =
           Some \<lparr>total_conversation_seconds = 0, remaining_seconds = 12000,
                 remaining_minutes = 200, remaining_hours = 3\<rparr>
       \<and> usage (loadUserUsage who NetOk
           (snd (updateSubscription who None (pl\<lparr>price := 2250\<rparr>)
                  (st(uid \<mapsto> d\<lparr>doc_remaining := Some 0\<rparr>)))) l) =
           Some \<lparr>total_conversation_seconds = 0, remaining_seconds = 24000,
                 remaining_minutes = 400, remaining_hours = 6\<rparr>
       \<and> canStartCall (usage (loadUserUsage who NetOk
           (snd (updateSubscription who None (pl\<lparr>price := 249\<rparr>)
                  (st(uid \<mapsto> d\<lparr>doc_remaining := Some 0\<rparr>)))) l)) = True
       \<and> canStartCall (usage (loadUserUsage who NetOk
           (snd (updateSubscription who None (pl\<lparr>price := 1150\<rparr>)
                  (st(uid \<mapsto> d\<lparr>doc_remaining := Some 0\<rparr>)))) l)) = True
       \<and> canStartCall (usage (loadUserUsage who NetOk
           (snd (updateSubscription who None (pl\<lparr>price := 2250\<rparr>)
                  (st(uid \<mapsto> d\<lparr>doc_remaining := Some 0\<rparr>)))) l)) = True"
  using assms
  by (simp add: updateSubscription_def plan_for_price_def loadUserUsage_def loadUserUsage_end_def
      loadUserUsage_begin_def loaded_usage_def canStartCall_def js_defined_or_def
      js_or_default_def Let_def)

theorem updateSubscription_grants_by_price_witness:
  "uid_of (Some ''u1'') = Some ''u1''
   \<and> (Map.empty(''u1'' \<mapsto> used_up_trial)) ''u1'' = Some used_up_trial
   \<and> (100::int) \<noteq> 249 \<and> (100::int) \<noteq> 1150 \<and> (100::int) \<noteq> 2250
   \<and> snd (updateSubscription (Some ''u1'') (Some PermissionDenied) (plan2\<lparr>price := 100\<rparr>)
            (Map.empty(''u1'' \<mapsto> used_up_trial))) = Map.empty(''u1'' \<mapsto> used_up_trial)
   \<and> stored_remaining (snd (updateSubscription (Some ''u1'') None (plan2\<lparr>price := 1150\<rparr>)
            (Map.empty(''u1'' \<mapsto> used_up_trial)))) ''u1'' = Some 12000
   \<and> canStartCall (usage (loadUserUsage (Some ''u1'') NetOk
           (snd (updateSubscription (Some ''u1'') None (plan2\<lparr>price := 2250\<rparr>)
                  ((Map.empty(''u1'' \<mapsto> used_up_trial))
                     (''u1'' \<mapsto> used_up_trial\<lparr>doc_remaining := Some 0\<rparr>)))) no_ledger))"
proof -
  have h1: "uid_of (Some ''u1'') = Some ''u1''"
    by (simp add: uid_of_def)
  have h2: "(Map.empty(''u1'' \<mapsto> used_up_trial)) ''u1'' = Some used_up_trial"
    by simp
  have h3: "(100::int) \<noteq> 249" and h4: "(100::int) \<noteq> 1150" and h5: "(100::int) \<noteq> 2250"
    by simp_all
  from updateSubscription_grants_by_price
      [where who = "Some ''u1''" and uid = "''u1''" and st = "Map.empty(''u1'' \<mapsto> used_up_trial)"
         and d = used_up_trial and p = 100 and pl = plan2 and fails = "Some PermissionDenied"
         and l = no_ledger, OF h1 h2 h3 h4 h5]
  show ?thesis
    using h1 h2 by (simp add: stored_remaining_def canStartCall_def)
qed

end
